theory Spec2Isabelle
  imports Main
begin

section \<open>Data model of \<open>client/src/client.ts\<close>\<close>

text \<open>
  The client of the ESLint extension decides which documents are validated
  (\<open>Validator.check\<close>), answers the server's \<open>workspace/configuration\<close> requests
  (\<open>readConfiguration\<close>) and runs the settings migration prompt.  The editor API
  (\<open>vscode\<close>), Node's \<open>path\<close> module and the modules \<open>settings\<close>,
  \<open>node-utils\<close> are not part of the file; what the code reads from them is
  a parameter of the model.

  Strings are \<^typ>\<open>string\<close>; \<open>length\<close> stands for JavaScript's \<open>.length\<close>.
\<close>

datatype Validate = off | on | probe

record Uri =
  scheme :: string
  fsPath :: string
  toString :: string

record TextDocument =
  uri :: Uri
  languageId :: string

text \<open>
  \<open>ValidateItem\<close> is \<open>{language: string, autoFix?: boolean}\<close>.  An element of the
  \<open>eslint.validate\<close> array is classified by the guards \<open>Is.string\<close> and
  \<open>ValidateItem.is\<close>: \<open>VString\<close> is a value \<open>Is.string\<close> accepts, \<open>VItem\<close> one
  that \<open>ValidateItem.is\<close> accepts, \<open>VOther\<close> a value neither accepts.
\<close>

record ValidateItem =
  language :: string
  autoFix :: "bool option"

datatype validate_entry = VString string | VItem ValidateItem | VOther

text \<open>
  JSON values, for the setting that the code reads as \<open>unknown\<close>.  Numbers are
  integers here; no statement depends on a number.
\<close>

datatype json =
    JNull
  | JBool bool
  | JNumber int
  | JString string
  | JArray "json list"
  | JObject "(string \<times> json) list"

text \<open>
  The elements of \<open>eslint.workingDirectories\<close>, classified by the guards in
  the order the loop tries them: \<open>Is.string\<close>, \<open>LegacyDirectoryItem.is\<close>
  (\<open>{directory, changeProcessCWD}\<close>), \<open>DirectoryItem.is\<close> (\<open>{directory, '!cwd'?}\<close>),
  \<open>PatternItem.is\<close> (\<open>{pattern, '!cwd'?}\<close>), \<open>ModeItem.is\<close> (\<open>{mode}\<close>); \<open>WOther\<close>
  is a value that passes none of them.
\<close>

record ModeItem =
  mode :: string

datatype wd_entry =
    WString string
  | WLegacyDirectoryItem string bool
  | WDirectoryItem string "bool option"
  | WPatternItem string "bool option"
  | WModeItem ModeItem
  | WOther

text \<open>
  What \<open>Workspace.getConfiguration('eslint', scope)\<close> holds, as far as the code
  reads it: each field is one \<open>config.get\<close> with its default applied.  An array
  setting is \<open>None\<close> when \<open>Array.isArray\<close> rejects the value.  The two rules
  settings are raw values, \<open>None\<close> for \<open>undefined\<close>.
\<close>

record WorkspaceConfiguration =
  eslint_enable :: bool
  eslint_enabled :: bool
  eslint_validate :: "validate_entry list option"
  eslint_probe :: "string list option"
  eslint_format_enable :: bool
  eslint_rules_customizations :: "json option"
  eslint_notebooks_rules_customizations :: "json option"
  eslint_workingDirectories :: "wd_entry list option"

text \<open>The second argument of \<open>Workspace.getConfiguration\<close>: a document or a URI.\<close>

datatype scope = ScopeDocument TextDocument | ScopeUri Uri

section \<open>The validator\<close>

record Validator =
  probeFailed :: "string set"

definition clear :: "Validator \<Rightarrow> Validator" where
  "clear v = v\<lparr>probeFailed := {}\<rparr>"

definition add :: "Validator \<Rightarrow> Uri \<Rightarrow> Validator" where
  "add v u = v\<lparr>probeFailed := insert (toString u) (probeFailed v)\<rparr>"

text \<open>The loop over \<open>validate\<close>: \<open>True\<close> when it returns \<open>Validate.on\<close>.\<close>

fun validate_loop :: "validate_entry list \<Rightarrow> string \<Rightarrow> bool" where
  "validate_loop [] lang = False"
| "validate_loop (VString s # items) lang =
     (if s = lang then True else validate_loop items lang)"
| "validate_loop (VItem i # items) lang =
     (if language i = lang then True else validate_loop items lang)"
| "validate_loop (VOther # items) lang = validate_loop items lang"

text \<open>The loop over \<open>probe\<close>: \<open>True\<close> when it returns \<open>Validate.probe\<close>.\<close>

fun probe_loop :: "string list \<Rightarrow> string \<Rightarrow> bool" where
  "probe_loop [] lang = False"
| "probe_loop (item # items) lang =
     (if item = lang then True else probe_loop items lang)"

text \<open>
  \<open>Validator.check\<close>.  \<open>getConfiguration\<close> is \<open>Workspace.getConfiguration('eslint', _)\<close>
  at the time of the call.
\<close>

definition check :: "(scope \<Rightarrow> WorkspaceConfiguration) \<Rightarrow> Validator \<Rightarrow> TextDocument \<Rightarrow> Validate" where
  "check getConfiguration v textDocument =
     (let config = getConfiguration (ScopeUri (uri textDocument)) in
      if \<not> eslint_enable config then off
      else
        let languageId = languageId textDocument in
        if (case eslint_validate config of
              None \<Rightarrow> False
            | Some items \<Rightarrow> validate_loop items languageId) then on
        else if toString (uri textDocument) \<in> probeFailed v then off
        else if (case eslint_probe config of
                   None \<Rightarrow> False
                 | Some items \<Rightarrow> probe_loop items languageId) then probe
        else off)"

text \<open>
  The handlers that call the validator's mutators: the \<open>ProbeFailedRequest\<close>
  handler (\<open>validator.add\<close>), the \<open>onDidChangeConfiguration\<close> listener and the
  \<open>didChangeWatchedFile\<close> middleware (both \<open>validator.clear\<close>).  No other code
  of the file writes \<open>probeFailed\<close>.  \<open>asUri\<close> is
  \<open>client.protocol2CodeConverter.asUri\<close>.
\<close>

datatype validator_event =
    ProbeFailedRequest string
  | DidChangeConfiguration
  | DidChangeWatchedFile

definition handle :: "(string \<Rightarrow> Uri) \<Rightarrow> Validator \<Rightarrow> validator_event \<Rightarrow> Validator" where
  "handle asUri v e =
     (case e of
        ProbeFailedRequest u \<Rightarrow> add v (asUri u)
      | DidChangeConfiguration \<Rightarrow> clear v
      | DidChangeWatchedFile \<Rightarrow> clear v)"

definition handle_all :: "(string \<Rightarrow> Uri) \<Rightarrow> Validator \<Rightarrow> validator_event list \<Rightarrow> Validator" where
  "handle_all asUri v es = foldl (handle asUri) v es"

text \<open>An event that empties \<open>probeFailed\<close>.\<close>

fun clears :: "validator_event \<Rightarrow> bool" where
  "clears (ProbeFailedRequest u) = False"
| "clears DidChangeConfiguration = True"
| "clears DidChangeWatchedFile = True"

text \<open>
  An element of the \<open>validate\<close> list that the language tag equals: a plain
  string, or a descriptor by its \<open>language\<close>.
\<close>

fun entry_matches :: "string \<Rightarrow> validate_entry \<Rightarrow> bool" where
  "entry_matches lang (VString s) = (s = lang)"
| "entry_matches lang (VItem i) = (language i = lang)"
| "entry_matches lang VOther = False"

definition in_validate :: "WorkspaceConfiguration \<Rightarrow> string \<Rightarrow> bool" where
  "in_validate config lang =
     (case eslint_validate config of
        None \<Rightarrow> False
      | Some items \<Rightarrow> \<exists>item \<in> set items. entry_matches lang item)"

definition in_probe :: "WorkspaceConfiguration \<Rightarrow> string \<Rightarrow> bool" where
  "in_probe config lang =
     (case eslint_probe config of
        None \<Rightarrow> False
      | Some items \<Rightarrow> lang \<in> set items)"

section \<open>Rule customizations\<close>

datatype error = TypeError

record RuleCustomization =
  severity :: string
  rule :: string

text \<open>
  JavaScript's truthiness of a value (\<open>!rawConfig\<close>), and of an optional string
  (\<open>item.section\<close>, \<open>item.scopeUri\<close>): \<open>undefined\<close> and the empty string are falsy.
\<close>

fun truthy :: "json \<Rightarrow> bool" where
  "truthy JNull = False"
| "truthy (JBool b) = b"
| "truthy (JNumber n) = (n \<noteq> 0)"
| "truthy (JString s) = (s \<noteq> [])"
| "truthy (JArray xs) = True"
| "truthy (JObject ms) = True"

definition truthy_string :: "string option \<Rightarrow> bool" where
  "truthy_string s = (case s of None \<Rightarrow> False | Some x \<Rightarrow> x \<noteq> [])"

text \<open>
  The property reads \<open>rawValue.severity\<close> and \<open>rawValue.rule\<close>: reading a
  property of \<open>null\<close> throws a \<open>TypeError\<close>; an object gives the member of that
  name (the last one, as \<open>JSON.parse\<close> keeps it) or \<open>undefined\<close>; a boolean, a
  number, a string or an array has neither property and gives \<open>undefined\<close>.
\<close>

fun get_property :: "json \<Rightarrow> string \<Rightarrow> error + json option" where
  "get_property JNull k = Inl TypeError"
| "get_property (JObject ms) k = Inr (map_of (rev ms) k)"
| "get_property v k = Inr None"

text \<open>The callback of \<open>rawConfig.map\<close>; \<open>&&\<close> reads \<open>rule\<close> only after \<open>severity\<close> passed.\<close>

definition customization_of :: "json \<Rightarrow> error + RuleCustomization option" where
  "customization_of rawValue =
     (case get_property rawValue ''severity'' of
        Inl e \<Rightarrow> Inl e
      | Inr (Some (JString s)) \<Rightarrow>
          (case get_property rawValue ''rule'' of
             Inl e \<Rightarrow> Inl e
           | Inr (Some (JString r)) \<Rightarrow> Inr (Some \<lparr>severity = s, rule = r\<rparr>)
           | Inr _ \<Rightarrow> Inr None)
      | Inr _ \<Rightarrow> Inr None)"

text \<open>\<open>Array.prototype.map\<close>: in order; an exception of the callback ends it.\<close>

fun map_customizations :: "json list \<Rightarrow> error + RuleCustomization option list" where
  "map_customizations [] = Inr []"
| "map_customizations (rawValue # rest) =
     (case customization_of rawValue of
        Inl e \<Rightarrow> Inl e
      | Inr y \<Rightarrow>
          (case map_customizations rest of
             Inl e \<Rightarrow> Inl e
           | Inr ys \<Rightarrow> Inr (y # ys)))"

definition parseRulesCustomizations :: "json option \<Rightarrow> error + RuleCustomization list" where
  "parseRulesCustomizations rawConfig =
     (case rawConfig of
        None \<Rightarrow> Inr []
      | Some raw \<Rightarrow>
          if \<not> truthy raw then Inr []
          else
            (case raw of
               JArray xs \<Rightarrow>
                 (case map_customizations xs of
                    Inl e \<Rightarrow> Inl e
                  | Inr ys \<Rightarrow> Inr (map the (filter (\<lambda>value. value \<noteq> None) ys)))
             | _ \<Rightarrow> Inr []))"

definition getRuleCustomizations :: "WorkspaceConfiguration \<Rightarrow> Uri \<Rightarrow> error + RuleCustomization list" where
  "getRuleCustomizations config u =
     (let customizations =
            (if scheme u = ''vscode-notebook-cell''
             then eslint_notebooks_rules_customizations config else None);
          customizations =
            (if customizations = None \<or> customizations = Some JNull
             then eslint_rules_customizations config else customizations)
      in parseRulesCustomizations customizations)"

text \<open>
  A well-formed entry: an object whose \<open>severity\<close> and \<open>rule\<close> are both
  strings; \<open>well_formed\<close> gives the customization it stands for.
\<close>

definition well_formed :: "json \<Rightarrow> RuleCustomization option" where
  "well_formed v =
     (case v of
        JObject ms \<Rightarrow>
          (case (map_of (rev ms) ''severity'', map_of (rev ms) ''rule'') of
             (Some (JString s), Some (JString r)) \<Rightarrow> Some \<lparr>severity = s, rule = r\<rparr>
           | _ \<Rightarrow> None)
      | _ \<Rightarrow> None)"

section \<open>Working directory\<close>

text \<open>
  The functions of Node's \<open>path\<close> and of \<open>node-utils\<close> that the loop calls.  A
  regular expression is its \<open>exec\<close>: the match array, or \<open>None\<close> for \<open>null\<close>;
  \<open>convert2RegExp\<close> gives \<open>None\<close> for \<open>undefined\<close>.
\<close>

record paths =
  toOSPath :: "string \<Rightarrow> string"
  path_isAbsolute :: "string \<Rightarrow> bool"
  path_join :: "string \<Rightarrow> string \<Rightarrow> string"
  path_sep :: char
  posix_isAbsolute :: "string \<Rightarrow> bool"
  posix_join :: "string \<Rightarrow> string \<Rightarrow> string"
  posix_sep :: char
  toPosixPath :: "string \<Rightarrow> string"
  convert2RegExp :: "string \<Rightarrow> (string \<Rightarrow> string list option) option"

text \<open>\<open>settings.workingDirectory\<close>: a \<open>ModeItem\<close> or a \<open>DirectoryItem\<close> \<open>{directory, '!cwd'}\<close>.\<close>

datatype ResolvedWorkingDirectory = IsModeItem ModeItem | IsDirectoryItem string bool

text \<open>\<open>s.charAt(s.length - 1) !== c\<close>; \<open>charAt\<close> of the empty string is empty.\<close>

definition last_char_differs :: "string \<Rightarrow> char \<Rightarrow> bool" where
  "last_char_differs s c = (s = [] \<or> last s \<noteq> c)"

definition startsWith :: "string \<Rightarrow> string \<Rightarrow> bool" where
  "startsWith s p = (take (length p) s = p)"

text \<open>
  The variables \<open>directory\<close>, \<open>pattern\<close> and \<open>noCWD\<close> after the chain of guards.
  (A \<open>ModeItem\<close> leaves the iteration before they are read.)
\<close>

fun entry_parts :: "wd_entry \<Rightarrow> string option \<times> string option \<times> bool" where
  "entry_parts (WString s) = (Some s, None, False)"
| "entry_parts (WLegacyDirectoryItem d changeProcessCWD) = (Some d, None, \<not> changeProcessCWD)"
| "entry_parts (WDirectoryItem d ncwd) =
     (Some d, None, (case ncwd of None \<Rightarrow> False | Some b \<Rightarrow> b))"
| "entry_parts (WPatternItem p ncwd) =
     (None, Some p, (case ncwd of None \<Rightarrow> False | Some b \<Rightarrow> b))"
| "entry_parts (WModeItem m) = (None, None, False)"
| "entry_parts WOther = (None, None, False)"

text \<open>The variable \<open>itemValue\<close>.\<close>

definition itemValue_of ::
  "paths \<Rightarrow> string option \<Rightarrow> string option \<Rightarrow> string option \<Rightarrow> string option \<Rightarrow> string option" where
  "itemValue_of P directory pattern filePath workspaceFolderPath =
     (if directory \<noteq> None \<or> pattern \<noteq> None then
        (case filePath of
           None \<Rightarrow> None
         | Some fp \<Rightarrow>
             (case directory of
                Some d \<Rightarrow>
                  (let d1 = toOSPath P d;
                       d2 = (case workspaceFolderPath of
                               Some folderPath \<Rightarrow>
                                 if \<not> path_isAbsolute P d1 then path_join P folderPath d1 else d1
                             | None \<Rightarrow> d1);
                       d3 = (if last_char_differs d2 (path_sep P) then d2 @ [path_sep P] else d2)
                   in if startsWith fp d3 then Some d3 else None)
              | None \<Rightarrow>
                  (case pattern of
                     Some p \<Rightarrow>
                       if length p > 0 then
                         (let p1 = (case workspaceFolderPath of
                                      Some folderPath \<Rightarrow>
                                        if \<not> posix_isAbsolute P p
                                        then posix_join P (toPosixPath P folderPath) p else p
                                    | None \<Rightarrow> p);
                              p2 = (if last_char_differs p1 (posix_sep P)
                                    then p1 @ [posix_sep P] else p1)
                          in case convert2RegExp P p2 of
                               None \<Rightarrow> None
                             | Some regExp \<Rightarrow>
                                 (case regExp fp of
                                    None \<Rightarrow> None
                                  | Some match \<Rightarrow>
                                      (case match of [] \<Rightarrow> None | m0 # _ \<Rightarrow> Some m0)))
                       else None
                   | None \<Rightarrow> None)))
      else None)"

text \<open>One iteration of the loop over \<open>workingDirectories\<close>, on the variable \<open>workingDirectory\<close>.\<close>

definition wd_step ::
  "paths \<Rightarrow> string option \<Rightarrow> string option \<Rightarrow> ResolvedWorkingDirectory option \<Rightarrow> wd_entry
     \<Rightarrow> ResolvedWorkingDirectory option" where
  "wd_step P filePath workspaceFolderPath workingDirectory entry =
     (case entry of
        WModeItem m \<Rightarrow> Some (IsModeItem m)
      | _ \<Rightarrow>
          (case entry_parts entry of
             (directory, pattern, noCWD) \<Rightarrow>
               (case itemValue_of P directory pattern filePath workspaceFolderPath of
                  None \<Rightarrow> workingDirectory
                | Some itemValue \<Rightarrow>
                    (case workingDirectory of
                       None \<Rightarrow> Some (IsDirectoryItem itemValue noCWD)
                     | Some (IsModeItem m) \<Rightarrow> Some (IsDirectoryItem itemValue noCWD)
                     | Some (IsDirectoryItem dir ncwd) \<Rightarrow>
                         if length dir < length itemValue
                         then Some (IsDirectoryItem itemValue noCWD)
                         else workingDirectory))))"

definition workingDirectory_loop ::
  "paths \<Rightarrow> string option \<Rightarrow> string option \<Rightarrow> wd_entry list \<Rightarrow> ResolvedWorkingDirectory option" where
  "workingDirectory_loop P filePath workspaceFolderPath workingDirectories =
     foldl (wd_step P filePath workspaceFolderPath) None workingDirectories"

text \<open>
  The match of one rule, for the statements about the loop: the \<open>itemValue\<close> of
  a directory or pattern rule with its \<open>noCWD\<close>; a \<open>ModeItem\<close> has none.
\<close>

definition entry_match ::
  "paths \<Rightarrow> string option \<Rightarrow> string option \<Rightarrow> wd_entry \<Rightarrow> (string \<times> bool) option" where
  "entry_match P filePath workspaceFolderPath entry =
     (case entry of
        WModeItem m \<Rightarrow> None
      | _ \<Rightarrow>
          (case entry_parts entry of
             (directory, pattern, noCWD) \<Rightarrow>
               map_option (\<lambda>itemValue. (itemValue, noCWD))
                 (itemValue_of P directory pattern filePath workspaceFolderPath)))"

fun is_mode :: "wd_entry \<Rightarrow> bool" where
  "is_mode (WModeItem m) = True"
| "is_mode e = False"

text \<open>
  The longest match, the first declared among those of equal length: position
  \<open>i\<close> of a list of matches, none longer anywhere, all before it shorter.
\<close>

definition first_longest :: "(string \<times> bool) list \<Rightarrow> nat \<Rightarrow> bool" where
  "first_longest ms i =
     (i < length ms \<and>
      list_all (\<lambda>m. length (fst m) \<le> length (fst (ms ! i))) ms \<and>
      list_all (\<lambda>m. length (fst m) < length (fst (ms ! i))) (take i ms))"

text \<open>No mode rule is declared after a rule that matches.\<close>

fun no_mode_after_match :: "(wd_entry \<Rightarrow> bool) \<Rightarrow> wd_entry list \<Rightarrow> bool" where
  "no_mode_after_match matches [] = True"
| "no_mode_after_match matches (e # es) =
     (if matches e then list_all (\<lambda>x. \<not> is_mode x) es else no_mode_after_match matches es)"

section \<open>Configuration requests and the migration prompt\<close>

record WorkspaceFolder =
  folder_name :: string
  folder_uri :: Uri

text \<open>The \<open>id\<close> of a button of the migration dialog.\<close>

datatype Item_id = Item_yes | Item_no | Item_readme | Item_global | Item_local

text \<open>
  What the function reads from and does to the editor, for a state \<open>'w\<close> of the
  editor's settings:
  \<^item> \<open>getConfiguration w scope\<close> is \<open>Workspace.getConfiguration('eslint', scope)\<close>;
  \<^item> \<open>migration_2_x w\<close> is \<open>Workspace.getConfiguration('eslint').get('migration.2_x', 'on')\<close>;
  \<^item> \<open>Migration_needsUpdate w resource\<close> is \<open>needsUpdate()\<close> of a \<open>new Migration(resource)\<close> after
    \<open>record()\<close>;
  \<^item> \<open>Migration_update w resource\<close> is \<open>await migration.update()\<close>: whether it
    fulfilled, and the settings after it;
  \<^item> \<open>config_update_off w\<close> is \<open>config.update('migration.2_x', 'off', ConfigurationTarget.Global)\<close>;
  \<^item> \<open>showInformationMessage n\<close> is what the modal dialog resolves to when \<open>n\<close>
    dialogs were shown before it: the \<open>id\<close> of the chosen item, \<open>None\<close> for
    \<open>undefined\<close>.
  The calls into the editor are taken to return.
\<close>

record 'w externals =
  getConfiguration :: "'w \<Rightarrow> scope \<Rightarrow> WorkspaceConfiguration"
  migration_2_x :: "'w \<Rightarrow> string"
  workspaceFolders :: "'w \<Rightarrow> WorkspaceFolder list option"
  getWorkspaceFolder :: "'w \<Rightarrow> Uri \<Rightarrow> WorkspaceFolder option"
  asUri :: "string \<Rightarrow> Uri"
  Migration_needsUpdate :: "'w \<Rightarrow> Uri \<Rightarrow> bool"
  Migration_update :: "'w \<Rightarrow> Uri \<Rightarrow> bool \<times> 'w"
  config_update_off :: "'w \<Rightarrow> 'w"
  showInformationMessage :: "nat \<Rightarrow> Item_id option"

text \<open>
  The variables of \<open>ESLintClient.create\<close> that \<open>readConfiguration\<close> reads and
  writes.  \<open>prompts\<close> records the resource of every migration dialog shown and
  \<open>migrationFailures\<close> counts the calls of \<open>migrationFailed\<close>; both are added
  to observe the effects.
\<close>

record client =
  validator :: Validator
  syncedDocuments :: "string \<rightharpoonup> TextDocument"
  notNow :: bool
  migration :: "Uri option"
  prompts :: "Uri list"
  migrationFailures :: nat

text \<open>
  The function that \<open>readConfiguration\<close> runs under \<open>migrationSemaphore.lock\<close>.
  Requests are taken one after the other, so the lock is always free.
\<close>

definition migrate :: "'w externals \<Rightarrow> Uri \<Rightarrow> client \<times> 'w \<Rightarrow> client \<times> 'w" where
  "migrate X resource cw =
     (case cw of
        (c, w) \<Rightarrow>
          (let globalMigration = migration_2_x X w in
           if notNow c = False \<and> globalMigration = ''on'' then
             (let c1 = c\<lparr>migration := Some resource\<rparr> in
              case
                (if Migration_needsUpdate X w resource then
                   (let selected = showInformationMessage X (length (prompts c1));
                        c2 = c1\<lparr>prompts := prompts c1 @ [resource]\<rparr>
                    in case selected of
                         None \<Rightarrow> (c2, w)
                       | Some Item_yes \<Rightarrow>
                           (case Migration_update X w resource of
                              (fulfilled, w') \<Rightarrow>
                                (if fulfilled then c2
                                 else c2\<lparr>migrationFailures := Suc (migrationFailures c2)\<rparr>, w'))
                       | Some Item_no \<Rightarrow> (c2\<lparr>notNow := True\<rparr>, w)
                       | Some Item_global \<Rightarrow> (c2, config_update_off X w)
                       | Some Item_readme \<Rightarrow> (c2\<lparr>notNow := True\<rparr>, w)
                       | Some Item_local \<Rightarrow> (c2, w))
                 else (c1, w))
              of (c3, w3) \<Rightarrow> (c3\<lparr>migration := None\<rparr>, w3))
           else (c, w)))"

text \<open>
  The dialog of \<open>readConfiguration\<close>: modal, with the four items of the call.
  \<open>modal_result\<close> is what the editor's modal dialog resolves to: the item the
  user clicks, and on a dismissal (Escape, closing the dialog) the item marked
  \<open>isCloseAffordance\<close>, the last such item; only a dialog without such an item
  resolves to \<open>undefined\<close> when it is dismissed.
\<close>

record MessageItem =
  item_id :: Item_id
  item_title :: string
  isCloseAffordance :: bool

definition migration_items :: "MessageItem list" where
  "migration_items =
     [\<lparr>item_id = Item_yes, item_title = ''Yes'', isCloseAffordance = False\<rparr>,
      \<lparr>item_id = Item_global, item_title = ''Never migrate Settings'', isCloseAffordance = False\<rparr>,
      \<lparr>item_id = Item_readme, item_title = ''Open Readme'', isCloseAffordance = False\<rparr>,
      \<lparr>item_id = Item_no, item_title = ''Not now'', isCloseAffordance = True\<rparr>]"

datatype user_action = Click Item_id | Dismiss

definition modal_result :: "MessageItem list \<Rightarrow> user_action \<Rightarrow> Item_id option" where
  "modal_result its action =
     (case action of
        Click i \<Rightarrow> if i \<in> set (map item_id its) then Some i else None
      | Dismiss \<Rightarrow>
          (case filter isCloseAffordance its of
             [] \<Rightarrow> None
           | x # xs \<Rightarrow> Some (item_id (last (x # xs)))))"

record ConfigurationItem =
  item_section :: "string option"
  scopeUri :: "string option"

record ConfigurationParams =
  items :: "ConfigurationItem list option"

text \<open>
  \<open>ConfigurationSettings\<close>, without the fields that are one \<open>config.get\<close> each
  and that nothing else reads (\<open>packageManager\<close>, \<open>useESLintClass\<close>, \<open>quiet\<close>,
  \<open>options\<close>, \<open>run\<close>, \<open>nodePath\<close>, \<open>codeAction\<close>, \<open>codeActionOnSave\<close> and others).
\<close>

record ConfigurationSettings =
  validate :: Validate
  format :: bool
  rulesCustomizations :: "RuleCustomization list"
  workingDirectory :: "ResolvedWorkingDirectory option"
  workspaceFolder :: "WorkspaceFolder option"

text \<open>
  The variable \<open>workspaceFolder\<close> of an iteration: for an untitled resource the
  first workspace folder, if there is one.
\<close>

definition workspaceFolder_of :: "'w externals \<Rightarrow> 'w \<Rightarrow> Uri \<Rightarrow> WorkspaceFolder option" where
  "workspaceFolder_of X w resource =
     (if scheme resource = ''untitled''
      then (case workspaceFolders X w of
              Some (f # fs) \<Rightarrow> Some f
            | _ \<Rightarrow> None)
      else getWorkspaceFolder X w resource)"

text \<open>
  The end of an iteration, for a scope URI that \<open>syncedDocuments\<close> knows: the
  assignments to \<open>settings\<close> after the test \<open>document === undefined\<close>.
  \<open>current\<close> is \<open>Workspace.getConfiguration('eslint', _)\<close> at that time,
  \<open>config\<close> the variable read before the migration.
\<close>

definition document_settings ::
  "paths \<Rightarrow> (scope \<Rightarrow> WorkspaceConfiguration) \<Rightarrow> Validator \<Rightarrow> WorkspaceConfiguration
     \<Rightarrow> WorkspaceFolder option \<Rightarrow> TextDocument \<Rightarrow> ConfigurationSettings \<Rightarrow> ConfigurationSettings" where
  "document_settings P current v config folder document settings =
     (let settings1 =
            (if eslint_enabled config
             then settings\<lparr>validate := check current v document\<rparr>
             else settings);
          settings2 =
            (if validate settings1 \<noteq> off
             then settings1\<lparr>format := eslint_format_enable config\<rparr>
             else settings1);
          settings3 =
            (if folder \<noteq> None
             then settings2\<lparr>workspaceFolder := folder\<rparr>
             else settings2)
      in case eslint_workingDirectories config of
           None \<Rightarrow> settings3
         | Some workingDirectories \<Rightarrow>
             (let workspaceFolderPath =
                    (case folder of
                       Some f \<Rightarrow>
                         if scheme (folder_uri f) = ''file''
                         then Some (fsPath (folder_uri f))
                         else None
                     | None \<Rightarrow> None);
                  filePath =
                    (if scheme (uri document) = ''file''
                     then Some (fsPath (uri document))
                     else None)
              in settings3\<lparr>workingDirectory :=
                   workingDirectory_loop P filePath workspaceFolderPath workingDirectories\<rparr>))"

text \<open>
  One iteration of the loop of \<open>readConfiguration\<close> over \<open>params.items\<close>: the
  value pushed on \<open>result\<close> (\<open>None\<close> is \<open>null\<close>) or the exception, and the
  variables and the editor's settings afterwards.
\<close>

definition readConfiguration_item ::
  "'w externals \<Rightarrow> paths \<Rightarrow> ConfigurationItem \<Rightarrow> client \<times> 'w
     \<Rightarrow> (error + ConfigurationSettings option) \<times> client \<times> 'w" where
  "readConfiguration_item X P item cw =
     (case cw of
        (c, w) \<Rightarrow>
          if truthy_string (item_section item) \<or> \<not> truthy_string (scopeUri item)
          then (Inr None, c, w)
          else
            (case scopeUri item of
               None \<Rightarrow> (Inr None, c, w)
             | Some scope_uri \<Rightarrow>
                 (let resource = asUri X scope_uri;
                      textDocument = syncedDocuments c (toString resource);
                      config = getConfiguration X w
                        (case textDocument of
                           Some d \<Rightarrow> ScopeDocument d
                         | None \<Rightarrow> ScopeUri resource);
                      folder = workspaceFolder_of X w resource
                  in case migrate X resource (c, w) of
                       (c1, w1) \<Rightarrow>
                         (case getRuleCustomizations config resource of
                            Inl e \<Rightarrow> (Inl e, c1, w1)
                          | Inr rules \<Rightarrow>
                              (let settings =
                                     \<lparr>validate = off, format = False,
                                      rulesCustomizations = rules,
                                      workingDirectory = None, workspaceFolder = None\<rparr>
                               in case syncedDocuments c1 scope_uri of
                                    None \<Rightarrow> (Inr (Some settings), c1, w1)
                                  | Some document \<Rightarrow>
                                      (Inr (Some (document_settings P (getConfiguration X w1)
                                                    (validator c1) config folder document settings)),
                                       c1, w1))))))"

text \<open>The loop: an exception leaves it, and the request is rejected.\<close>

fun readConfiguration_items ::
  "'w externals \<Rightarrow> paths \<Rightarrow> ConfigurationItem list \<Rightarrow> client \<times> 'w
     \<Rightarrow> (error + ConfigurationSettings option list) \<times> client \<times> 'w" where
  "readConfiguration_items X P [] cw = (Inr [], cw)"
| "readConfiguration_items X P (item # rest) cw =
     (case readConfiguration_item X P item cw of
        (Inl e, cw1) \<Rightarrow> (Inl e, cw1)
      | (Inr r, cw1) \<Rightarrow>
          (case readConfiguration_items X P rest cw1 of
             (Inl e, cw2) \<Rightarrow> (Inl e, cw2)
           | (Inr rs, cw2) \<Rightarrow> (Inr (r # rs), cw2)))"

definition readConfiguration ::
  "'w externals \<Rightarrow> paths \<Rightarrow> ConfigurationParams \<Rightarrow> client \<times> 'w
     \<Rightarrow> (error + ConfigurationSettings option list) \<times> client \<times> 'w" where
  "readConfiguration X P params cw =
     (case items params of
        None \<Rightarrow> (Inr [], cw)
      | Some its \<Rightarrow> readConfiguration_items X P its cw)"

text \<open>A sequence of configuration requests, one after the other.\<close>

fun requests ::
  "'w externals \<Rightarrow> paths \<Rightarrow> ConfigurationParams list \<Rightarrow> client \<times> 'w \<Rightarrow> client \<times> 'w" where
  "requests X P [] cw = cw"
| "requests X P (params # rest) cw = requests X P rest (snd (readConfiguration X P params cw))"

text \<open>The items for which the loop pushes \<open>null\<close> at once.\<close>

definition not_handled :: "ConfigurationItem \<Rightarrow> bool" where
  "not_handled item =
     ((case item_section item of None \<Rightarrow> False | Some s \<Rightarrow> s \<noteq> []) \<or>
      (case scopeUri item of None \<Rightarrow> True | Some u \<Rightarrow> u = []))"

section \<open>Notions of the statements\<close>

text \<open>The items of a request; none when \<open>params.items\<close> is \<open>undefined\<close>.\<close>

definition items_of :: "ConfigurationParams \<Rightarrow> ConfigurationItem list" where
  "items_of params = (case items params of None \<Rightarrow> [] | Some its \<Rightarrow> its)"

text \<open>
  The variable \<open>config\<close> of an iteration of \<open>readConfiguration\<close>: the
  configuration of the synced document of the resource, or of the resource.
\<close>

definition config_for :: "'w externals \<Rightarrow> client \<Rightarrow> 'w \<Rightarrow> string \<Rightarrow> WorkspaceConfiguration" where
  "config_for X c w scope_uri =
     (let resource = asUri X scope_uri in
      getConfiguration X w
        (case syncedDocuments c (toString resource) of
           Some d \<Rightarrow> ScopeDocument d
         | None \<Rightarrow> ScopeUri resource))"

text \<open>The directory that the variable \<open>workingDirectory\<close> holds, if it holds one.\<close>

fun directory_part :: "ResolvedWorkingDirectory option \<Rightarrow> (string \<times> bool) list" where
  "directory_part (Some (IsDirectoryItem d c)) = [(d, c)]"
| "directory_part wd = []"

section \<open>Concrete inputs\<close>

text \<open>
  The inputs of the evaluated examples.  \<open>parse_uri\<close> reads a URI of the shape
  \<open>scheme://path\<close> as \<open>asUri\<close> does for a file on a POSIX host.
\<close>

definition parse_uri :: "string \<Rightarrow> Uri" where
  "parse_uri s =
     \<lparr>scheme = takeWhile (\<lambda>c. c \<noteq> CHR '':'') s,
      fsPath = drop (length (takeWhile (\<lambda>c. c \<noteq> CHR '':'') s) + 3) s,
      toString = s\<rparr>"

definition example_config :: WorkspaceConfiguration where
  "example_config =
     \<lparr>eslint_enable = True, eslint_enabled = True,
      eslint_validate =
        Some [VString ''javascript'', VItem \<lparr>language = ''typescript'', autoFix = Some True\<rparr>],
      eslint_probe = Some [''javascript'', ''vue''],
      eslint_format_enable = False,
      eslint_rules_customizations = None,
      eslint_notebooks_rules_customizations = None,
      eslint_workingDirectories = None\<rparr>"

definition example_document :: TextDocument where
  "example_document = \<lparr>uri = parse_uri ''file:///a/b.js'', languageId = ''javascript''\<rparr>"

text \<open>
  A POSIX host: \<open>path\<close> is \<open>path.posix\<close>, the separator is the slash, a path is
  absolute when it starts with one, and \<open>toOSPath\<close>, \<open>toPosixPath\<close> have
  nothing to convert.  \<open>path.join\<close> and \<open>convert2RegExp\<close> stay parameters.  The
  examples have absolute directories and no pattern rule, so neither is called
  there (lemma \<open>examples_independent_of_join_and_regexp\<close>), and \<open>example_paths\<close>
  fixes them arbitrarily.
\<close>

definition posix_host ::
  "(string \<Rightarrow> string \<Rightarrow> string) \<Rightarrow> (string \<Rightarrow> (string \<Rightarrow> string list option) option) \<Rightarrow> paths" where
  "posix_host join_fn regexp_fn =
     \<lparr>toOSPath = (\<lambda>p. p),
      path_isAbsolute = (\<lambda>p. take 1 p = ''/''),
      path_join = join_fn,
      path_sep = CHR ''/'',
      posix_isAbsolute = (\<lambda>p. take 1 p = ''/''),
      posix_join = join_fn,
      posix_sep = CHR ''/'',
      toPosixPath = (\<lambda>p. p),
      convert2RegExp = regexp_fn\<rparr>"

definition example_paths :: paths where
  "example_paths = posix_host (\<lambda>a b. a @ ''/'' @ b) (\<lambda>p. None)"

text \<open>
  An editor whose settings are a pair: the value of \<open>eslint.migration.2_x\<close>, and
  whether the legacy setting is still there.  Every scope has the same
  configuration, no workspace folder is open, and the dialog is answered by
  \<open>answers\<close>.
\<close>

definition example_editor ::
  "WorkspaceConfiguration \<Rightarrow> (nat \<Rightarrow> Item_id option) \<Rightarrow> (string \<times> bool) externals" where
  "example_editor config answers =
     \<lparr>getConfiguration = (\<lambda>w sc. config),
      migration_2_x = (\<lambda>w. fst w),
      workspaceFolders = (\<lambda>w. None),
      getWorkspaceFolder = (\<lambda>w u. None),
      asUri = parse_uri,
      Migration_needsUpdate = (\<lambda>w u. snd w),
      Migration_update = (\<lambda>w u. (True, (fst w, False))),
      config_update_off = (\<lambda>w. (''off'', snd w)),
      showInformationMessage = answers\<rparr>"

definition example_client :: "(string \<rightharpoonup> TextDocument) \<Rightarrow> client" where
  "example_client docs =
     \<lparr>validator = \<lparr>probeFailed = {}\<rparr>, syncedDocuments = docs, notNow = False,
      migration = None, prompts = [], migrationFailures = 0\<rparr>"

definition example_rule :: json where
  "example_rule = JObject [(''rule'', JString ''no-console''), (''severity'', JString ''warn'')]"

section \<open>Validation policy\<close>

lemma validate_loop_iff:
  "validate_loop xs lang = (\<exists>item \<in> set xs. entry_matches lang item)"
  by (induction xs lang rule: validate_loop.induct) auto

lemma probe_loop_iff: "probe_loop xs lang = (lang \<in> set xs)"
  by (induction xs) auto

lemma check_failed:
  "toString (uri d) \<in> probeFailed v \<Longrightarrow>
   check gc v d =
     (if eslint_enable (gc (ScopeUri (uri d))) \<and> in_validate (gc (ScopeUri (uri d))) (languageId d)
      then on else off)"
  by (simp add: check_def in_validate_def validate_loop_iff Let_def split: option.split)

lemma check_not_failed:
  "toString (uri d) \<notin> probeFailed v \<Longrightarrow>
   check gc v d =
     (if \<not> eslint_enable (gc (ScopeUri (uri d))) then off
      else if in_validate (gc (ScopeUri (uri d))) (languageId d) then on
      else if in_probe (gc (ScopeUri (uri d))) (languageId d) then probe
      else off)"
  by (simp add: check_def in_validate_def in_probe_def validate_loop_iff probe_loop_iff Let_def
      split: option.split)

text \<open>
  C1.  \<open>Validator.check\<close> applies its rules in a fixed order, the first that
  applies decides: \<open>enable\<close> false gives \<open>off\<close>; else the language tag equal to
  an element of the \<open>validate\<close> list (a string, or a descriptor's \<open>language\<close>)
  gives \<open>on\<close>; else the URI in \<open>probeFailed\<close> gives \<open>off\<close>; else the language
  tag in the \<open>probe\<close> list gives \<open>probe\<close>; else \<open>off\<close>.
\<close>

theorem check_rule_order:
  "check gc v d =
     (let config = gc (ScopeUri (uri d)) in
      if \<not> eslint_enable config then off
      else if in_validate config (languageId d) then on
      else if toString (uri d) \<in> probeFailed v then off
      else if in_probe config (languageId d) then probe
      else off)"
  by (simp add: check_def in_validate_def in_probe_def validate_loop_iff probe_loop_iff
      Let_def split: option.split)

text \<open>
  The scenarios of the specification: \<open>json\<close> in the \<open>validate\<close> list; \<open>javascript\<close>
  in the \<open>probe\<close> list, before and after the probe failed.
\<close>

lemma check_scenarios:
  "check (\<lambda>sc. example_config\<lparr>eslint_validate := Some [VString ''json''], eslint_probe := None\<rparr>)
     \<lparr>probeFailed = {}\<rparr> \<lparr>uri = parse_uri ''file:///a/b.json'', languageId = ''json''\<rparr> = on"
  "check (\<lambda>sc. example_config\<lparr>eslint_validate := Some [], eslint_probe := Some [''javascript'']\<rparr>)
     \<lparr>probeFailed = {}\<rparr> example_document = probe"
  "check (\<lambda>sc. example_config\<lparr>eslint_validate := Some [], eslint_probe := Some [''javascript'']\<rparr>)
     (handle parse_uri \<lparr>probeFailed = {}\<rparr> (ProbeFailedRequest ''file:///a/b.js'')) example_document = off"
  by (simp_all add: check_def handle_def add_def example_config_def example_document_def parse_uri_def)

lemma handle_keeps:
  "x \<in> probeFailed v \<Longrightarrow> list_all (\<lambda>e. \<not> clears e) es \<Longrightarrow> x \<in> probeFailed (foldl (handle conv) v es)"
proof (induction es arbitrary: v)
  case Nil
  then show ?case by simp
next
  case (Cons e es)
  from Cons.prems have "x \<in> probeFailed (handle conv v e)"
    by (cases e) (simp_all add: handle_def add_def)
  with Cons show ?case by simp
qed

text \<open>
  C2, as amended.  After the \<open>ProbeFailedRequest\<close> handler added a URI, and for
  as long as no event clears \<open>probeFailed\<close> (a configuration change or a watched
  file change), \<open>check\<close> on a document with that URI never gives \<open>probe\<close>: it
  gives \<open>on\<close> when \<open>enable\<close> is true and the \<open>validate\<close> list has the language
  tag, and \<open>off\<close> otherwise, whatever the \<open>probe\<close> list holds.
\<close>

theorem probe_failure_override:
  assumes "toString (uri d) = toString (conv u)"
    and "list_all (\<lambda>e. \<not> clears e) es"
  shows "check gc (handle_all conv (handle conv v (ProbeFailedRequest u)) es) d =
           (if eslint_enable (gc (ScopeUri (uri d))) \<and>
               in_validate (gc (ScopeUri (uri d))) (languageId d)
            then on else off)"
proof -
  have "toString (uri d) \<in> probeFailed (handle conv v (ProbeFailedRequest u))"
    using assms(1) by (simp add: handle_def add_def)
  then have "toString (uri d) \<in> probeFailed (handle_all conv (handle conv v (ProbeFailedRequest u)) es)"
    unfolding handle_all_def using assms(2) by (rule handle_keeps)
  then show ?thesis
    by (rule check_failed)
qed

text \<open>
  An instance: the probe of a Vue file failed, another probe failure follows,
  and the file stays \<open>off\<close> although \<open>vue\<close> is in the \<open>probe\<close> list.
\<close>

theorem probe_failure_override_witness:
  "check (\<lambda>sc. example_config)
     (handle_all parse_uri (handle parse_uri \<lparr>probeFailed = {}\<rparr> (ProbeFailedRequest ''file:///a/b.vue''))
        [ProbeFailedRequest ''file:///c.vue''])
     \<lparr>uri = parse_uri ''file:///a/b.vue'', languageId = ''vue''\<rparr> = off"
  using probe_failure_override [of "\<lparr>uri = parse_uri ''file:///a/b.vue'', languageId = ''vue''\<rparr>" parse_uri "''file:///a/b.vue''"
      "[ProbeFailedRequest ''file:///c.vue'']" "\<lambda>sc. example_config" "\<lparr>probeFailed = {}\<rparr>"]
  by (simp add: example_config_def in_validate_def parse_uri_def)

text \<open>
  C2 as stated fails twice: a document whose language tag is in the \<open>validate\<close>
  list is \<open>on\<close> although its URI was added, and a watched file change, which is
  no configuration change, makes the document \<open>probe\<close> again.
\<close>

theorem probe_failure_override_counterexample:
  "check (\<lambda>sc. example_config)
     (handle_all parse_uri (handle parse_uri \<lparr>probeFailed = {}\<rparr> (ProbeFailedRequest ''file:///a/b.js'')) [])
     \<lparr>uri = parse_uri ''file:///a/b.js'', languageId = ''javascript''\<rparr> = on
   \<and> check (\<lambda>sc. example_config)
     (handle_all parse_uri (handle parse_uri \<lparr>probeFailed = {}\<rparr> (ProbeFailedRequest ''file:///a/b.vue''))
        [DidChangeWatchedFile])
     \<lparr>uri = parse_uri ''file:///a/b.vue'', languageId = ''vue''\<rparr> = probe"
  by (simp add: check_def handle_all_def handle_def add_def clear_def example_config_def parse_uri_def)

text \<open>
  C10.  A watched file change empties \<open>probeFailed\<close> as a configuration change
  does, so that a document whose probe failed is classified \<open>probe\<close> again when
  its language tag is in the \<open>probe\<close> list (and \<open>enable\<close> is true, the tag not in
  the \<open>validate\<close> list).
\<close>

theorem watched_file_clears:
  "probeFailed (handle conv v DidChangeConfiguration) = {} \<and>
   probeFailed (handle conv v DidChangeWatchedFile) = {} \<and>
   (eslint_enable (gc (ScopeUri (uri d))) \<and>
    \<not> in_validate (gc (ScopeUri (uri d))) (languageId d) \<and>
    in_probe (gc (ScopeUri (uri d))) (languageId d)
    \<longrightarrow> check gc (handle conv v DidChangeWatchedFile) d = probe)"
  by (simp add: check_not_failed handle_def clear_def)

text \<open>An instance: \<open>off\<close> before the watched file change, \<open>probe\<close> after it.\<close>

theorem watched_file_clears_witness:
  "check (\<lambda>sc. example_config) \<lparr>probeFailed = {''file:///a/b.vue''}\<rparr>
     \<lparr>uri = parse_uri ''file:///a/b.vue'', languageId = ''vue''\<rparr> = off \<and>
   check (\<lambda>sc. example_config) (handle parse_uri \<lparr>probeFailed = {''file:///a/b.vue''}\<rparr> DidChangeWatchedFile)
     \<lparr>uri = parse_uri ''file:///a/b.vue'', languageId = ''vue''\<rparr> = probe"
  using watched_file_clears [of parse_uri "\<lparr>probeFailed = {''file:///a/b.vue''}\<rparr>" "\<lambda>sc. example_config"
      "\<lparr>uri = parse_uri ''file:///a/b.vue'', languageId = ''vue''\<rparr>"]
  by (simp add: check_def example_config_def in_validate_def in_probe_def parse_uri_def)

section \<open>Parsing the rules customizations\<close>

lemma customization_of_null: "customization_of JNull = Inl TypeError"
  by (simp add: customization_of_def)

lemma customization_of_not_null: "v \<noteq> JNull \<Longrightarrow> customization_of v = Inr (well_formed v)"
  by (cases v) (auto simp: customization_of_def well_formed_def split: option.split json.split)

lemma map_customizations_no_null:
  "JNull \<notin> set xs \<Longrightarrow> map_customizations xs = Inr (map well_formed xs)"
  by (induction xs) (auto simp: customization_of_not_null)

lemma map_customizations_null:
  "JNull \<in> set xs \<Longrightarrow> map_customizations xs = Inl TypeError"
proof (induction xs)
  case Nil
  then show ?case by simp
next
  case (Cons x xs)
  show ?case
  proof (cases "x = JNull")
    case True
    then show ?thesis by (simp add: customization_of_null)
  next
    case False
    with Cons show ?thesis by (simp add: customization_of_not_null)
  qed
qed

lemma filter_the_map_filter:
  "map the (filter (\<lambda>v. v \<noteq> None) (map f xs)) = List.map_filter f xs"
  by (induction xs) (auto split: option.split)

text \<open>
  What holds of \<open>parseRulesCustomizations\<close>: an array without \<open>null\<close> gives its
  well-formed entries in order, the others dropped one by one; a value that is
  no array gives the empty list; an array with a \<open>null\<close> entry throws.
\<close>

lemma parse_well_formed:
  "JNull \<notin> set xs \<Longrightarrow>
   parseRulesCustomizations (Some (JArray xs)) = Inr (List.map_filter well_formed xs)"
  using filter_the_map_filter [of well_formed xs]
  by (simp add: parseRulesCustomizations_def map_customizations_no_null)

lemma parse_not_array:
  "(\<And>xs. raw \<noteq> Some (JArray xs)) \<Longrightarrow> parseRulesCustomizations raw = Inr []"
  by (auto simp: parseRulesCustomizations_def split: option.split json.split)

lemma parse_null:
  "JNull \<in> set xs \<Longrightarrow> parseRulesCustomizations (Some (JArray xs)) = Inl TypeError"
  by (simp add: parseRulesCustomizations_def map_customizations_null)

text \<open>
  C9.  Malformed entries of the rules customizations are to be dropped one by
  one and never to fail the request.  The code does so except for the entry
  \<open>null\<close>: reading \<open>rawValue.severity\<close> throws, \<open>parseRulesCustomizations\<close> ends
  with the \<open>TypeError\<close>, the well-formed entry beside it is lost, and the
  configuration request is rejected.
\<close>

theorem null_customization_rejects:
  "parseRulesCustomizations (Some (JArray [example_rule, JNull])) = Inl TypeError \<and>
   fst (readConfiguration
          (example_editor (example_config\<lparr>eslint_rules_customizations := Some (JArray [example_rule, JNull])\<rparr>)
             (\<lambda>n. None))
          example_paths
          \<lparr>items = Some [\<lparr>item_section = Some [], scopeUri = Some ''file:///a/b.js''\<rparr>]\<rparr>
          (example_client Map.empty, (''off'', False))) = Inl TypeError"
  by (simp add: parseRulesCustomizations_def customization_of_def example_rule_def
      readConfiguration_def readConfiguration_item_def truthy_string_def getRuleCustomizations_def
      example_editor_def example_config_def example_client_def parse_uri_def migrate_def)

section \<open>Answering configuration requests\<close>

lemma not_handled_iff:
  "not_handled item = (truthy_string (item_section item) \<or> \<not> truthy_string (scopeUri item))"
  by (simp add: not_handled_def truthy_string_def split: option.split)

lemma migrate_keeps:
  "migrate X resource (c, w) = (c1, w1) \<Longrightarrow>
   validator c1 = validator c \<and> syncedDocuments c1 = syncedDocuments c"
  by (auto simp: migrate_def Let_def split: if_splits option.splits Item_id.splits prod.splits)

lemma item_not_handled:
  "not_handled item \<Longrightarrow> readConfiguration_item X P item cw = (Inr None, cw)"
  by (cases cw) (simp add: readConfiguration_item_def not_handled_iff)

lemma item_handled:
  "\<not> not_handled item \<Longrightarrow> fst (readConfiguration_item X P item cw) = Inr r \<Longrightarrow> r \<noteq> None"
  by (cases cw)
    (auto simp: readConfiguration_item_def not_handled_iff truthy_string_def Let_def
      split: option.splits prod.splits sum.splits)

lemma item_null_iff:
  "fst (readConfiguration_item X P item cw) = Inr r \<Longrightarrow> (r = None) = not_handled item"
  using item_handled [of item X P cw r] item_not_handled [of item X P cw] by auto

lemma items_shape:
  "fst (readConfiguration_items X P its cw) = Inr rs \<Longrightarrow>
   length rs = length its \<and> (\<forall>i < length its. (rs ! i = None) = not_handled (its ! i))"
proof (induction its arbitrary: cw rs)
  case Nil
  then show ?case by simp
next
  case (Cons item rest)
  obtain r cw1 where r: "readConfiguration_item X P item cw = (Inr r, cw1)"
    using Cons.prems by (auto split: prod.splits sum.splits)
  obtain rs' cw2 where rs': "readConfiguration_items X P rest cw1 = (Inr rs', cw2)"
    using Cons.prems r by (auto split: prod.splits sum.splits)
  have rs: "rs = r # rs'"
    using Cons.prems r rs' by simp
  have head: "(r = None) = not_handled item"
    using r item_null_iff [of X P item cw r] by simp
  have tail: "length rs' = length rest \<and> (\<forall>i < length rest. (rs' ! i = None) = not_handled (rest ! i))"
    using Cons.IH [of cw1 rs'] rs' by simp
  show ?case
    using rs head tail by (auto simp: nth_Cons split: nat.split)
qed

lemma items_pointwise:
  "fst (readConfiguration_items X P its cw) = Inr rs \<Longrightarrow>
   \<forall>i < length its. \<exists>cw'. fst (readConfiguration_item X P (its ! i) cw') = Inr (rs ! i)"
proof (induction its arbitrary: cw rs)
  case Nil
  then show ?case by simp
next
  case (Cons item rest)
  obtain r cw1 where r: "readConfiguration_item X P item cw = (Inr r, cw1)"
    using Cons.prems by (auto split: prod.splits sum.splits)
  obtain rs' cw2 where rs': "readConfiguration_items X P rest cw1 = (Inr rs', cw2)"
    using Cons.prems r by (auto split: prod.splits sum.splits)
  have rs: "rs = r # rs'"
    using Cons.prems r rs' by simp
  have head: "fst (readConfiguration_item X P item cw) = Inr r"
    using r by simp
  have tail: "\<forall>i < length rest. \<exists>cw'. fst (readConfiguration_item X P (rest ! i) cw') = Inr (rs' ! i)"
    using Cons.IH [of cw1 rs'] rs' by simp
  show ?case
  proof (intro allI impI)
    fix i
    assume "i < length (item # rest)"
    then show "\<exists>cw'. fst (readConfiguration_item X P ((item # rest) ! i) cw') = Inr (rs ! i)"
    proof (cases i)
      case 0
      then have "fst (readConfiguration_item X P ((item # rest) ! i) cw) = Inr (rs ! i)"
        using rs head by simp
      then show ?thesis by blast
    next
      case (Suc j)
      then have "j < length rest"
        using \<open>i < length (item # rest)\<close> by simp
      then obtain cw' where "fst (readConfiguration_item X P (rest ! j) cw') = Inr (rs' ! j)"
        using tail by blast
      then have "fst (readConfiguration_item X P ((item # rest) ! i) cw') = Inr (rs ! i)"
        using Suc rs by simp
      then show ?thesis by blast
    qed
  qed
qed

lemma item_returns:
  assumes "\<And>w sc u. getRuleCustomizations (getConfiguration X w sc) u \<noteq> Inl TypeError"
  shows "\<exists>r. fst (readConfiguration_item X P item cw) = Inr r"
proof -
  have ok: "\<And>w sc u. \<exists>rules. getRuleCustomizations (getConfiguration X w sc) u = Inr rules"
  proof -
    fix w sc u
    show "\<exists>rules. getRuleCustomizations (getConfiguration X w sc) u = Inr rules"
      using assms [of w sc u]
      by (cases "getRuleCustomizations (getConfiguration X w sc) u") (auto intro: error.exhaust)
  qed
  show ?thesis
  proof (cases cw)
    case (Pair c w)
    show ?thesis
    proof (cases "not_handled item")
      case True
      then show ?thesis by (simp add: item_not_handled)
    next
      case False
      then obtain su where su: "scopeUri item = Some su"
        by (auto simp: not_handled_def split: option.splits)
      obtain c1 w1 where m: "migrate X (asUri X su) (c, w) = (c1, w1)"
        by (cases "migrate X (asUri X su) (c, w)") auto
      obtain rules where rules:
        "getRuleCustomizations
           (getConfiguration X w
              (case syncedDocuments c (toString (asUri X su)) of
                 Some d \<Rightarrow> ScopeDocument d | None \<Rightarrow> ScopeUri (asUri X su)))
           (asUri X su) = Inr rules"
        using ok by blast
      show ?thesis
        using False su m rules Pair
        by (auto simp: readConfiguration_item_def not_handled_iff Let_def split: option.splits)
    qed
  qed
qed

lemma items_return:
  assumes "\<And>w sc u. getRuleCustomizations (getConfiguration X w sc) u \<noteq> Inl TypeError"
  shows "\<exists>rs. fst (readConfiguration_items X P its cw) = Inr rs"
proof (induction its arbitrary: cw)
  case Nil
  then show ?case by simp
next
  case (Cons item rest)
  obtain r where r: "fst (readConfiguration_item X P item cw) = Inr r"
    using item_returns [OF assms] by blast
  then obtain cw1 where cw1: "readConfiguration_item X P item cw = (Inr r, cw1)"
    by (cases "readConfiguration_item X P item cw") auto
  obtain rs where "fst (readConfiguration_items X P rest cw1) = Inr rs"
    using Cons.IH by blast
  then show ?case
    using cw1 by (auto split: prod.splits sum.splits)
qed

text \<open>
  C5, as amended.  When \<open>readConfiguration\<close> returns, its result has one
  entry for each item, in the order of the items, and the entry is \<open>null\<close>
  exactly for the items with a non-empty \<open>section\<close> or without a (non-empty)
  \<open>scopeUri\<close>; every entry is what the iteration for its item pushed.  It
  returns whenever no rules customization throws.
\<close>

theorem readConfiguration_shape:
  "(fst (readConfiguration X P params cw) = Inr rs \<longrightarrow>
      length rs = length (items_of params) \<and>
      (\<forall>i < length (items_of params).
         (\<exists>cw'. fst (readConfiguration_item X P (items_of params ! i) cw') = Inr (rs ! i)) \<and>
         (rs ! i = None) = not_handled (items_of params ! i))) \<and>
   ((\<forall>w sc u. getRuleCustomizations (getConfiguration X w sc) u \<noteq> Inl TypeError) \<longrightarrow>
      (\<exists>rs'. fst (readConfiguration X P params cw) = Inr rs'))"
proof (cases "items params")
  case None
  then show ?thesis by (auto simp: readConfiguration_def items_of_def)
next
  case (Some its)
  then show ?thesis
    using items_shape [of X P its cw rs] items_pointwise [of X P its cw rs]
      items_return [of X P its cw]
    by (simp add: readConfiguration_def items_of_def)
qed

text \<open>
  An instance with three items: no \<open>scopeUri\<close>, a \<open>scopeUri\<close> alone, a \<open>section\<close>
  and a \<open>scopeUri\<close>.
\<close>

theorem readConfiguration_shape_witness:
  "(\<forall>w sc u. getRuleCustomizations
       (getConfiguration (example_editor example_config (\<lambda>n. None)) w sc) u \<noteq> Inl TypeError) \<and>
   (\<exists>rs. fst (readConfiguration (example_editor example_config (\<lambda>n. None)) example_paths
              \<lparr>items = Some [\<lparr>item_section = None, scopeUri = None\<rparr>,
                             \<lparr>item_section = None, scopeUri = Some ''file:///a/b.js''\<rparr>,
                             \<lparr>item_section = Some ''eslint'', scopeUri = Some ''file:///a/b.js''\<rparr>]\<rparr>
              (example_client Map.empty, (''on'', True))) = Inr rs \<and>
         length rs = 3 \<and> rs ! 0 = None \<and> rs ! 1 \<noteq> None \<and> rs ! 2 = None)"
proof -
  let ?X = "example_editor example_config (\<lambda>n. None)"
  let ?params = "\<lparr>items = Some [\<lparr>item_section = None, scopeUri = None\<rparr>,
                             \<lparr>item_section = None, scopeUri = Some ''file:///a/b.js''\<rparr>,
                             \<lparr>item_section = Some ''eslint'', scopeUri = Some ''file:///a/b.js''\<rparr>]\<rparr>"
  let ?cw = "(example_client Map.empty, (''on'', True))"
  have ok: "\<forall>w sc u. getRuleCustomizations (getConfiguration ?X w sc) u \<noteq> Inl TypeError"
    by (simp add: example_editor_def example_config_def getRuleCustomizations_def
        parseRulesCustomizations_def)
  have shape: "\<And>rs. (fst (readConfiguration ?X example_paths ?params ?cw) = Inr rs \<longrightarrow>
      length rs = length (items_of ?params) \<and>
      (\<forall>i < length (items_of ?params).
         (\<exists>cw'. fst (readConfiguration_item ?X example_paths (items_of ?params ! i) cw') = Inr (rs ! i)) \<and>
         (rs ! i = None) = not_handled (items_of ?params ! i))) \<and>
   ((\<forall>w sc u. getRuleCustomizations (getConfiguration ?X w sc) u \<noteq> Inl TypeError) \<longrightarrow>
      (\<exists>rs'. fst (readConfiguration ?X example_paths ?params ?cw) = Inr rs'))"
    by (rule readConfiguration_shape)
  from shape ok obtain rs where rs: "fst (readConfiguration ?X example_paths ?params ?cw) = Inr rs"
    by blast
  with shape [of rs] have len: "length rs = length (items_of ?params)"
    and nulls: "\<forall>i < length (items_of ?params). (rs ! i = None) = not_handled (items_of ?params ! i)"
    by blast+
  have "length rs = 3"
    using len by (simp add: items_of_def)
  moreover have "rs ! 0 = None"
    using nulls by (simp add: items_of_def not_handled_def)
  moreover have "rs ! 1 \<noteq> None"
    using nulls by (simp add: items_of_def not_handled_def)
  moreover have "rs ! 2 = None"
    using nulls by (simp add: items_of_def not_handled_def)
  ultimately show ?thesis
    using ok rs by blast
qed

text \<open>
  C5 as stated fails for an item that carries the section \<open>''\<close>: the empty
  string is falsy, the item is resolved like one without a section, and its
  entry is a settings object.
\<close>

theorem empty_section_counterexample:
  "fst (readConfiguration (example_editor example_config (\<lambda>n. None)) example_paths
          \<lparr>items = Some [\<lparr>item_section = Some [], scopeUri = Some ''file:///a/b.js''\<rparr>]\<rparr>
          (example_client Map.empty, (''off'', False))) =
   Inr [Some \<lparr>validate = off, format = False, rulesCustomizations = [],
              workingDirectory = None, workspaceFolder = None\<rparr>]"
  by (simp add: readConfiguration_def readConfiguration_item_def truthy_string_def
      getRuleCustomizations_def parseRulesCustomizations_def
      example_editor_def example_config_def example_client_def parse_uri_def migrate_def)

text \<open>
  What the code does: the settings of a resolved item have \<open>validate\<close> \<open>off\<close>
  unless \<open>syncedDocuments\<close> has a document for the scope URI and the setting
  \<open>enabled\<close> of the resource's configuration is true; then \<open>validate\<close> is what
  \<open>Validator.check\<close> gives for that document (after the migration step of the
  item).
\<close>

lemma validate_of_item:
  assumes "readConfiguration_item X P item (c, w) = (Inr (Some settings), c1, w1)"
  shows "\<exists>su. scopeUri item = Some su \<and>
           validate settings =
             (case syncedDocuments c su of
                None \<Rightarrow> off
              | Some document \<Rightarrow>
                  if eslint_enabled (config_for X c w su)
                  then check (getConfiguration X w1) (validator c) document
                  else off)"
proof -
  have h: "\<not> not_handled item"
    using assms item_not_handled [of item X P "(c, w)"] by auto
  then obtain su where su: "scopeUri item = Some su"
    by (auto simp: not_handled_def split: option.splits)
  obtain c' w' where m: "migrate X (asUri X su) (c, w) = (c', w')"
    by (cases "migrate X (asUri X su) (c, w)") auto
  have keeps: "validator c' = validator c" "syncedDocuments c' = syncedDocuments c"
    using migrate_keeps [OF m] by simp_all
  have "validate settings =
             (case syncedDocuments c su of
                None \<Rightarrow> off
              | Some document \<Rightarrow>
                  if eslint_enabled (config_for X c w su)
                  then check (getConfiguration X w1) (validator c) document
                  else off)"
    using assms h su m keeps
    by (auto simp: readConfiguration_item_def document_settings_def not_handled_iff
        config_for_def Let_def split: option.splits sum.splits if_splits)
  with su show ?thesis by blast
qed


text \<open>An instance: a synced JavaScript document is resolved with \<open>validate\<close> \<open>on\<close>.\<close>

lemma validate_of_item_example:
  "\<exists>settings c1 w1.
      readConfiguration_item (example_editor example_config (\<lambda>n. None)) example_paths
        \<lparr>item_section = Some [], scopeUri = Some ''file:///a/b.js''\<rparr>
        (example_client [''file:///a/b.js'' \<mapsto> example_document], (''off'', False))
        = (Inr (Some settings), c1, w1) \<and>
      validate settings = on"
proof -
  let ?X = "example_editor example_config (\<lambda>n. None)"
  let ?item = "\<lparr>item_section = Some [], scopeUri = Some ''file:///a/b.js''\<rparr>"
  let ?c = "example_client [''file:///a/b.js'' \<mapsto> example_document]"
  obtain r c1 w1 where r:
    "readConfiguration_item ?X example_paths ?item (?c, (''off'', False)) = (r, c1, w1)"
    using prod_cases3 by blast
  have ok: "\<And>w sc u. getRuleCustomizations (getConfiguration ?X w sc) u \<noteq> Inl TypeError"
    by (simp add: example_editor_def example_config_def getRuleCustomizations_def
        parseRulesCustomizations_def)
  obtain r' where "fst (readConfiguration_item ?X example_paths ?item (?c, (''off'', False))) = Inr r'"
    using item_returns [of ?X example_paths ?item "(?c, (''off'', False))"] ok by blast
  moreover have "\<not> not_handled ?item"
    by (simp add: not_handled_def)
  ultimately obtain settings where "r = Inr (Some settings)"
    using r item_handled [of ?item ?X example_paths "(?c, (''off'', False))" r'] by auto
  with r have eq: "readConfiguration_item ?X example_paths ?item (?c, (''off'', False))
      = (Inr (Some settings), c1, w1)"
    by simp
  have "validate settings = on"
    using validate_of_item [OF eq]
    by (simp add: config_for_def example_client_def example_editor_def example_config_def
        example_document_def parse_uri_def check_def)
  with eq show ?thesis by blast
qed

text \<open>
  C6.  \<open>validate\<close> is to be what \<open>Validator.check\<close> gives exactly when the scope
  URI has a synced document and the enable flag of the resource is true.  The
  code tests the key \<open>enabled\<close> where \<open>Validator.check\<close> tests \<open>enable\<close>: with
  \<open>enable\<close> true, \<open>enabled\<close> false and a synced JavaScript document,
  \<open>Validator.check\<close> gives \<open>on\<close> and the settings have \<open>validate\<close> \<open>off\<close>.
\<close>

theorem enabled_key_leaves_validate_off:
  "eslint_enable (example_config\<lparr>eslint_enabled := False\<rparr>) = True \<and>
   syncedDocuments (example_client [''file:///a/b.js'' \<mapsto> example_document]) ''file:///a/b.js''
     = Some example_document \<and>
   check (\<lambda>sc. example_config\<lparr>eslint_enabled := False\<rparr>) \<lparr>probeFailed = {}\<rparr> example_document = on \<and>
   fst (readConfiguration
          (example_editor (example_config\<lparr>eslint_enabled := False\<rparr>) (\<lambda>n. None))
          example_paths
          \<lparr>items = Some [\<lparr>item_section = Some [], scopeUri = Some ''file:///a/b.js''\<rparr>]\<rparr>
          (example_client [''file:///a/b.js'' \<mapsto> example_document], (''off'', False))) =
   Inr [Some \<lparr>validate = off, format = False, rulesCustomizations = [],
              workingDirectory = None, workspaceFolder = None\<rparr>]"
  by (simp add: readConfiguration_def readConfiguration_item_def document_settings_def
      workspaceFolder_of_def truthy_string_def getRuleCustomizations_def
      parseRulesCustomizations_def check_def migrate_def
      example_editor_def example_config_def example_client_def example_document_def parse_uri_def)

text \<open>Once \<open>notNow\<close> is set, no request changes the variables or the settings.\<close>

lemma migrate_notNow: "notNow c \<Longrightarrow> migrate X resource (c, w) = (c, w)"
  by (simp add: migrate_def)

lemma item_notNow: "notNow c \<Longrightarrow> snd (readConfiguration_item X P item (c, w)) = (c, w)"
  by (auto simp: readConfiguration_item_def migrate_notNow Let_def split: option.splits sum.splits)

lemma items_notNow: "notNow c \<Longrightarrow> snd (readConfiguration_items X P its (c, w)) = (c, w)"
proof (induction its)
  case Nil
  then show ?case by simp
next
  case (Cons item rest)
  have "snd (readConfiguration_item X P item (c, w)) = (c, w)"
    using Cons.prems by (rule item_notNow)
  then obtain r where r: "readConfiguration_item X P item (c, w) = (r, c, w)"
    by (cases "readConfiguration_item X P item (c, w)") simp
  have "snd (readConfiguration_items X P rest (c, w)) = (c, w)"
    using Cons.prems by (rule Cons.IH)
  then obtain rs where rs: "readConfiguration_items X P rest (c, w) = (rs, c, w)"
    by (cases "readConfiguration_items X P rest (c, w)") simp
  show ?case
    using r rs by (simp split: sum.splits)
qed

lemma requests_notNow: "notNow c \<Longrightarrow> requests X P reqs (c, w) = (c, w)"
proof (induction reqs)
  case Nil
  then show ?case by simp
next
  case (Cons params rest)
  have "snd (readConfiguration X P params (c, w)) = (c, w)"
    by (cases "items params") (simp_all add: readConfiguration_def items_notNow [OF Cons.prems])
  with Cons show ?case by simp
qed

text \<open>
  When the dialog of an item resolves to \<open>Not now\<close> or \<open>Open Readme\<close>, the
  settings stay as they are and no later request shows a dialog.
\<close>

lemma notNow_after_answer:
  assumes "\<not> not_handled item" and "scopeUri item = Some su"
    and "notNow c = False" and "migration_2_x X w = ''on''"
    and "Migration_needsUpdate X w (asUri X su)"
    and "showInformationMessage X (length (prompts c)) = Some Item_no \<or>
         showInformationMessage X (length (prompts c)) = Some Item_readme"
  shows "\<exists>c1. snd (readConfiguration_item X P item (c, w)) = (c1, w) \<and>
           prompts c1 = prompts c @ [asUri X su] \<and>
           (\<forall>reqs. Migration_needsUpdate X (snd (requests X P reqs (c1, w))) (asUri X su) \<and>
                   prompts (fst (requests X P reqs (c1, w))) = prompts c1)"
proof -
  let ?c1 = "c\<lparr>migration := None, prompts := prompts c @ [asUri X su], notNow := True\<rparr>"
  have m: "migrate X (asUri X su) (c, w) = (?c1, w)"
    using assms(3-6) by (auto simp: migrate_def Let_def)
  have "snd (readConfiguration_item X P item (c, w)) = (?c1, w)"
    using assms(1,2) m
    by (auto simp: readConfiguration_item_def not_handled_iff Let_def split: option.splits sum.splits)
  moreover have "\<forall>reqs. requests X P reqs (?c1, w) = (?c1, w)"
    by (simp add: requests_notNow)
  ultimately show ?thesis
    using assms(5) by (intro exI [of _ ?c1]) simp
qed

text \<open>
  What the dialog of the migration resolves to: a dismissal is the item
  \<open>Not now\<close>, and no action of the user on it gives \<open>undefined\<close>.
\<close>

lemma modal_result_dismiss: "modal_result migration_items Dismiss = Some Item_no"
  by (simp add: modal_result_def migration_items_def)

lemma modal_result_click:
  "i \<noteq> Item_local \<Longrightarrow> modal_result migration_items (Click i) = Some i"
  by (cases i) (simp_all add: modal_result_def migration_items_def)

text \<open>
  C7.  When the dialog of an item is answered with \<open>Not now\<close> or \<open>Open Readme\<close>,
  or is dismissed, the settings stay as they are (the legacy setting still
  needs the update) and no later sequence of configuration requests shows a
  dialog: \<open>prompts\<close> stays what it was after that answer.
\<close>

theorem migration_deferred:
  assumes "\<not> not_handled item" and "scopeUri item = Some su"
    and "notNow c = False" and "migration_2_x X w = ''on''"
    and "Migration_needsUpdate X w (asUri X su)"
    and "showInformationMessage X (length (prompts c)) = modal_result migration_items action"
    and "action = Click Item_no \<or> action = Click Item_readme \<or> action = Dismiss"
  shows "\<exists>c1. snd (readConfiguration_item X P item (c, w)) = (c1, w) \<and>
           prompts c1 = prompts c @ [asUri X su] \<and>
           (\<forall>reqs. Migration_needsUpdate X (snd (requests X P reqs (c1, w))) (asUri X su) \<and>
                   prompts (fst (requests X P reqs (c1, w))) = prompts c1)"
proof -
  have "modal_result migration_items action = Some Item_no \<or>
        modal_result migration_items action = Some Item_readme"
    using assms(7) modal_result_dismiss modal_result_click [of Item_no]
      modal_result_click [of Item_readme] by auto
  then have "showInformationMessage X (length (prompts c)) = Some Item_no \<or>
             showInformationMessage X (length (prompts c)) = Some Item_readme"
    using assms(6) by simp
  then show ?thesis
    using assms(1-5) by (rule notNow_after_answer [rotated -1])
qed

text \<open>An instance: every dialog is dismissed; the first request shows the only one.\<close>

theorem migration_deferred_witness:
  "notNow (example_client Map.empty) = False \<and>
   migration_2_x (example_editor example_config (\<lambda>n. modal_result migration_items Dismiss))
     (''on'', True) = ''on'' \<and>
   Migration_needsUpdate (example_editor example_config (\<lambda>n. modal_result migration_items Dismiss))
     (''on'', True) (parse_uri ''file:///a/b.js'') \<and>
   (\<exists>c1. snd (readConfiguration_item
                (example_editor example_config (\<lambda>n. modal_result migration_items Dismiss))
                example_paths
                \<lparr>item_section = Some [], scopeUri = Some ''file:///a/b.js''\<rparr>
                (example_client Map.empty, (''on'', True))) = (c1, (''on'', True)) \<and>
         prompts c1 = [parse_uri ''file:///a/b.js''] \<and>
         (\<forall>reqs. prompts (fst (requests
                                 (example_editor example_config
                                    (\<lambda>n. modal_result migration_items Dismiss))
                                 example_paths reqs (c1, (''on'', True))))
                 = [parse_uri ''file:///a/b.js'']))"
proof -
  let ?X = "example_editor example_config (\<lambda>n. modal_result migration_items Dismiss)"
  let ?item = "\<lparr>item_section = Some [], scopeUri = Some ''file:///a/b.js''\<rparr>"
  let ?c = "example_client Map.empty"
  let ?w = "(''on'', True)"
  have h1: "\<not> not_handled ?item" and h2: "scopeUri ?item = Some ''file:///a/b.js''"
    by (simp_all add: not_handled_def)
  have h3: "notNow ?c = False"
    by (simp add: example_client_def)
  have h4: "migration_2_x ?X ?w = ''on''"
    and h5: "Migration_needsUpdate ?X ?w (asUri ?X ''file:///a/b.js'')"
    and h6: "showInformationMessage ?X (length (prompts ?c)) = modal_result migration_items Dismiss"
    by (simp_all add: example_editor_def)
  have h7: "Dismiss = Click Item_no \<or> Dismiss = Click Item_readme \<or> Dismiss = Dismiss"
    by simp
  have u: "asUri ?X ''file:///a/b.js'' = parse_uri ''file:///a/b.js''"
    and p: "prompts ?c = []"
    by (simp_all add: example_editor_def example_client_def)
  obtain c1 where c1: "snd (readConfiguration_item ?X example_paths ?item (?c, ?w)) = (c1, ?w)"
    "prompts c1 = prompts ?c @ [asUri ?X ''file:///a/b.js'']"
    "\<forall>reqs. prompts (fst (requests ?X example_paths reqs (c1, ?w))) = prompts c1"
    using migration_deferred [OF h1 h2 h3 h4 h5 h6 h7, of example_paths] by blast
  have "Migration_needsUpdate ?X ?w (parse_uri ''file:///a/b.js'')"
    using h5 u by simp
  then show ?thesis
    using h3 h4 c1 u p by (intro conjI exI [of _ c1]) simp_all
qed

section \<open>Selecting the working directory\<close>

lemma entry_match_mode: "is_mode e \<Longrightarrow> entry_match P fp root e = None"
  by (cases e) (simp_all add: entry_match_def)

lemma wd_step_mode: "wd_step P fp root acc (WModeItem m) = Some (IsModeItem m)"
  by (simp add: wd_step_def)

lemma wd_step_no_match:
  "\<not> is_mode e \<Longrightarrow> entry_match P fp root e = None \<Longrightarrow> wd_step P fp root acc e = acc"
  by (cases e) (auto simp: wd_step_def entry_match_def split: prod.splits option.splits)

lemma wd_step_match:
  "entry_match P fp root e = Some (v, n) \<Longrightarrow>
   wd_step P fp root acc e =
     (case directory_part acc of
        [] \<Rightarrow> Some (IsDirectoryItem v n)
      | (d, c) # _ \<Rightarrow> if length d < length v then Some (IsDirectoryItem v n) else acc)"
  by (cases e; cases acc rule: directory_part.cases)
    (auto simp: wd_step_def entry_match_def split: prod.splits option.splits)

lemma first_longest_single: "first_longest [m] 0"
  by (simp add: first_longest_def)

lemma first_longest_keep:
  "first_longest ms i \<Longrightarrow> length (fst m) \<le> length (fst (ms ! i)) \<Longrightarrow> first_longest (ms @ [m]) i"
  by (simp add: first_longest_def nth_append)

lemma first_longest_replace:
  assumes "first_longest ms i" and "length (fst (ms ! i)) < length (fst m)"
  shows "first_longest (ms @ [m]) (length ms)"
proof -
  have "\<forall>x \<in> set ms. length (fst x) \<le> length (fst (ms ! i))"
    using assms(1) by (simp add: first_longest_def list_all_iff)
  then have "\<forall>x \<in> set ms. length (fst x) < length (fst m)"
    using assms(2) by fastforce
  then show ?thesis
    by (auto simp: first_longest_def list_all_iff)
qed

lemma first_longest_unique:
  assumes "first_longest ms i" and "first_longest ms j"
  shows "i = j"
proof (rule ccontr)
  assume "i \<noteq> j"
  then consider "i < j" | "j < i" by linarith
  then show False
  proof cases
    case 1
    have "ms ! i \<in> set (take j ms)"
      using 1 assms(2) by (auto simp: first_longest_def in_set_conv_nth intro!: exI [of _ i])
    then have "length (fst (ms ! i)) < length (fst (ms ! j))"
      using assms(2) by (auto simp: first_longest_def list_all_iff)
    moreover have "length (fst (ms ! j)) \<le> length (fst (ms ! i))"
      using assms by (auto simp: first_longest_def list_all_iff)
    ultimately show False by simp
  next
    case 2
    have "ms ! j \<in> set (take i ms)"
      using 2 assms(1) by (auto simp: first_longest_def in_set_conv_nth intro!: exI [of _ j])
    then have "length (fst (ms ! j)) < length (fst (ms ! i))"
      using assms(1) by (auto simp: first_longest_def list_all_iff)
    moreover have "length (fst (ms ! i)) \<le> length (fst (ms ! j))"
      using assms by (auto simp: first_longest_def list_all_iff)
    ultimately show False by simp
  qed
qed

lemma map_filter_append:
  "List.map_filter f (xs @ ys) = List.map_filter f xs @ List.map_filter f ys"
  by (simp add: List.map_filter_def)

lemma map_filter_snoc:
  "List.map_filter f (xs @ [x]) =
     List.map_filter f xs @ (case f x of None \<Rightarrow> [] | Some y \<Rightarrow> [y])"
  by (simp add: map_filter_append split: option.split)

text \<open>Over rules without a mode rule the loop keeps the first longest match.\<close>

lemma loop_no_mode:
  assumes "list_all (\<lambda>e. \<not> is_mode e) es"
  shows "if directory_part acc @ List.map_filter (entry_match P fp root) es = []
         then foldl (wd_step P fp root) acc es = acc
         else \<exists>i. first_longest (directory_part acc @ List.map_filter (entry_match P fp root) es) i \<and>
                  foldl (wd_step P fp root) acc es =
                    Some (IsDirectoryItem
                      (fst ((directory_part acc @ List.map_filter (entry_match P fp root) es) ! i))
                      (snd ((directory_part acc @ List.map_filter (entry_match P fp root) es) ! i)))"
  using assms
proof (induction es rule: rev_induct)
  case Nil
  show ?case
  proof (cases acc rule: directory_part.cases)
    case (1 d c)
    then show ?thesis using first_longest_single [of "(d, c)"] by (auto intro!: exI [of _ 0])
  qed simp_all
next
  case (snoc e es)
  let ?ms = "directory_part acc @ List.map_filter (entry_match P fp root) es"
  let ?r = "foldl (wd_step P fp root) acc es"
  have nm: "\<not> is_mode e" and nms: "list_all (\<lambda>e. \<not> is_mode e) es"
    using snoc.prems by simp_all
  have IH: "if ?ms = [] then ?r = acc
            else \<exists>i. first_longest ?ms i \<and> ?r = Some (IsDirectoryItem (fst (?ms ! i)) (snd (?ms ! i)))"
    using snoc.IH [OF nms] .
  show ?case
  proof (cases "entry_match P fp root e")
    case None
    then have ms_eq: "directory_part acc @ List.map_filter (entry_match P fp root) (es @ [e]) = ?ms"
      by (simp add: map_filter_snoc)
    have r_eq: "foldl (wd_step P fp root) acc (es @ [e]) = ?r"
      using None nm by (simp add: wd_step_no_match)
    show ?thesis
      unfolding ms_eq r_eq by (rule IH)
  next
    case (Some m)
    obtain v n where m: "m = (v, n)" by (cases m)
    have ms': "directory_part acc @ List.map_filter (entry_match P fp root) (es @ [e]) = ?ms @ [(v, n)]"
      using Some m by (simp add: map_filter_snoc)
    have step: "foldl (wd_step P fp root) acc (es @ [e]) =
        (case directory_part ?r of
           [] \<Rightarrow> Some (IsDirectoryItem v n)
         | (d, c) # _ \<Rightarrow> if length d < length v then Some (IsDirectoryItem v n) else ?r)"
      using Some m by (simp add: wd_step_match)
    show ?thesis
    proof (cases "?ms = []")
      case True
      then have "?r = acc" and "directory_part acc = []"
        using IH by simp_all
      then have "foldl (wd_step P fp root) acc (es @ [e]) = Some (IsDirectoryItem v n)"
        using step by simp
      moreover have "?ms @ [(v, n)] = [(v, n)]"
        using True by simp
      ultimately show ?thesis
        unfolding ms' using first_longest_single [of "(v, n)"] by (auto intro!: exI [of _ 0])
    next
      case False
      then obtain i where i: "first_longest ?ms i"
        and r: "?r = Some (IsDirectoryItem (fst (?ms ! i)) (snd (?ms ! i)))"
        using IH by auto
      have ilt: "i < length ?ms"
        using i by (simp add: first_longest_def)
      show ?thesis
      proof (cases "length (fst (?ms ! i)) < length v")
        case True
        have "foldl (wd_step P fp root) acc (es @ [e]) = Some (IsDirectoryItem v n)"
          using step r True by (simp add: case_prod_beta)
        moreover have "first_longest (?ms @ [(v, n)]) (length ?ms)"
          using first_longest_replace [OF i, of "(v, n)"] True by simp
        ultimately show ?thesis
          unfolding ms' by (auto intro!: exI [of _ "length ?ms"])
      next
        case False
        have "foldl (wd_step P fp root) acc (es @ [e]) = ?r"
          using step r False by (simp add: case_prod_beta)
        moreover have "first_longest (?ms @ [(v, n)]) i"
          using first_longest_keep [OF i, of "(v, n)"] False by simp
        ultimately show ?thesis
          unfolding ms' using r ilt by (auto simp: nth_append intro!: exI [of _ i])
      qed
    qed
  qed
qed


text \<open>Rules that do not match leave no directory in the variable.\<close>

lemma loop_no_match:
  assumes "list_all (\<lambda>e. entry_match P fp root e = None) es" and "directory_part acc = []"
  shows "directory_part (foldl (wd_step P fp root) acc es) = []"
  using assms
proof (induction es arbitrary: acc)
  case Nil
  then show ?case by simp
next
  case (Cons e es)
  have "directory_part (wd_step P fp root acc e) = []"
  proof (cases "is_mode e")
    case True
    then obtain m where "e = WModeItem m" by (cases e) simp_all
    then show ?thesis by (simp add: wd_step_mode)
  next
    case False
    then show ?thesis using Cons.prems by (simp add: wd_step_no_match)
  qed
  then show ?case using Cons by simp
qed

lemma split_at_first_match:
  assumes "no_mode_after_match (\<lambda>e. entry_match P fp root e \<noteq> None) es"
  shows "\<exists>pre post. es = pre @ post \<and>
           list_all (\<lambda>e. entry_match P fp root e = None) pre \<and>
           list_all (\<lambda>e. \<not> is_mode e) post"
  using assms
proof (induction es)
  case Nil
  then show ?case by simp
next
  case (Cons e es)
  show ?case
  proof (cases "entry_match P fp root e")
    case None
    then obtain pre post where "es = pre @ post"
      "list_all (\<lambda>e. entry_match P fp root e = None) pre" "list_all (\<lambda>e. \<not> is_mode e) post"
      using Cons by auto
    then have "e # es = (e # pre) @ post \<and>
        list_all (\<lambda>e. entry_match P fp root e = None) (e # pre) \<and> list_all (\<lambda>e. \<not> is_mode e) post"
      using None by simp
    then show ?thesis by blast
  next
    case (Some m)
    then have "\<not> is_mode e"
      using entry_match_mode [of e P fp root] by auto
    then have "e # es = [] @ (e # es) \<and>
        list_all (\<lambda>e. entry_match P fp root e = None) [] \<and> list_all (\<lambda>e. \<not> is_mode e) (e # es)"
      using Cons.prems Some by simp
    then show ?thesis by blast
  qed
qed

lemma map_filter_none:
  "list_all (\<lambda>e. f e = None) xs \<Longrightarrow> List.map_filter f xs = []"
  by (induction xs) simp_all

text \<open>
  What the code does for rules among which no mode rule follows a match: when
  some rule matches, the loop ends with the longest match, the first declared
  among the matches of that length, and with the \<open>noCWD\<close> of its rule.
\<close>

lemma longest_match_first_declared:
  assumes "no_mode_after_match (\<lambda>e. entry_match P fp root e \<noteq> None) es"
    and "List.map_filter (entry_match P fp root) es \<noteq> []"
  shows "\<exists>i. first_longest (List.map_filter (entry_match P fp root) es) i \<and>
           workingDirectory_loop P fp root es =
             Some (IsDirectoryItem (fst (List.map_filter (entry_match P fp root) es ! i))
                                   (snd (List.map_filter (entry_match P fp root) es ! i)))"
proof -
  obtain pre post where es: "es = pre @ post"
    and pre: "list_all (\<lambda>e. entry_match P fp root e = None) pre"
    and post: "list_all (\<lambda>e. \<not> is_mode e) post"
    using split_at_first_match [OF assms(1)] by blast
  let ?acc = "foldl (wd_step P fp root) None pre"
  have acc: "directory_part ?acc = []"
    using loop_no_match [OF pre] by simp
  have ms: "List.map_filter (entry_match P fp root) es = List.map_filter (entry_match P fp root) post"
    using es pre by (simp add: map_filter_append map_filter_none)
  have loop: "workingDirectory_loop P fp root es = foldl (wd_step P fp root) ?acc post"
    by (simp add: workingDirectory_loop_def es)
  show ?thesis
    using loop_no_mode [OF post, of ?acc P fp root] assms(2) acc
    unfolding ms loop by simp
qed

text \<open>The instance of the specification: \<open>/a/\<close> and \<open>/a/b/\<close> for the file \<open>/a/b/c.js\<close>.\<close>

lemma longest_match_example:
  "workingDirectory_loop example_paths (Some ''/a/b/c.js'') None [WString ''/a/'', WString ''/a/b/'']
     = Some (IsDirectoryItem ''/a/b/'' False)"
proof -
  let ?es = "[WString ''/a/'', WString ''/a/b/'']"
  let ?m = "entry_match example_paths (Some ''/a/b/c.js'') None"
  have ms: "List.map_filter ?m ?es = [(''/a/'', False), (''/a/b/'', False)]"
    by (simp add: entry_match_def itemValue_of_def example_paths_def posix_host_def
        last_char_differs_def startsWith_def)
  have h1: "no_mode_after_match (\<lambda>e. ?m e \<noteq> None) ?es"
    by simp
  have h2: "List.map_filter ?m ?es \<noteq> []"
    using ms by simp
  obtain i where i: "first_longest (List.map_filter ?m ?es) i"
    and r: "workingDirectory_loop example_paths (Some ''/a/b/c.js'') None ?es =
              Some (IsDirectoryItem (fst (List.map_filter ?m ?es ! i)) (snd (List.map_filter ?m ?es ! i)))"
    using longest_match_first_declared [OF h1 h2] by blast
  have "first_longest [(''/a/'', False), (''/a/b/'', False)] 1"
    by (simp add: first_longest_def)
  then have "i = 1"
    using i first_longest_unique unfolding ms by blast
  then show ?thesis
    using r unfolding ms by simp
qed

text \<open>
  C3.  The loop is to keep a running best match, replaced only by a strictly
  longer match, so that the result is the longest match, the first declared
  among equal ones.  The code does so between directory and pattern rules;
  but a mode rule between two matches replaces the running match \<open>/a/b/\<close>, and
  the shorter match \<open>/a/\<close> declared after it is the result.
\<close>

theorem mode_between_matches_forgets_longest:
  "List.map_filter (entry_match example_paths (Some ''/a/b/c.js'') None)
     [WString ''/a/b/'', WModeItem \<lparr>mode = ''auto''\<rparr>, WString ''/a/'']
     = [(''/a/b/'', False), (''/a/'', False)] \<and>
   workingDirectory_loop example_paths (Some ''/a/b/c.js'') None
     [WString ''/a/b/'', WModeItem \<lparr>mode = ''auto''\<rparr>, WString ''/a/'']
     = Some (IsDirectoryItem ''/a/'' False)"
  by (simp add: workingDirectory_loop_def wd_step_def entry_match_def itemValue_of_def
      example_paths_def posix_host_def last_char_differs_def startsWith_def)

text \<open>
  C4.  A mode rule is to be a fallback that any matching directory or pattern
  rule overrides, wherever it is declared.  The code does so for a mode rule
  declared before the matching rule; a mode rule declared after it replaces
  the match, and the result is the mode rule although \<open>/a/\<close> matches.
\<close>

theorem mode_after_match_replaces:
  "entry_match example_paths (Some ''/a/x.js'') None (WDirectoryItem ''/a/'' None)
     = Some (''/a/'', False) \<and>
   workingDirectory_loop example_paths (Some ''/a/x.js'') None
     [WDirectoryItem ''/a/'' None, WModeItem \<lparr>mode = ''auto''\<rparr>]
     = Some (IsModeItem \<lparr>mode = ''auto''\<rparr>) \<and>
   workingDirectory_loop example_paths (Some ''/a/x.js'') None
     [WModeItem \<lparr>mode = ''auto''\<rparr>, WDirectoryItem ''/a/'' None]
     = Some (IsDirectoryItem ''/a/'' False)"
  by (simp add: workingDirectory_loop_def wd_step_def entry_match_def itemValue_of_def
      example_paths_def posix_host_def last_char_differs_def startsWith_def)

text \<open>The same input in a configuration request for the synced document \<open>/a/x.js\<close>.\<close>

lemma mode_after_match_in_request:
  "fst (readConfiguration
          (example_editor
             (example_config\<lparr>eslint_workingDirectories :=
                Some [WDirectoryItem ''/a/'' None, WModeItem \<lparr>mode = ''auto''\<rparr>]\<rparr>)
             (\<lambda>n. None))
          example_paths
          \<lparr>items = Some [\<lparr>item_section = Some [], scopeUri = Some ''file:///a/x.js''\<rparr>]\<rparr>
          (example_client
             [''file:///a/x.js'' \<mapsto> \<lparr>uri = parse_uri ''file:///a/x.js'', languageId = ''javascript''\<rparr>],
           (''off'', False))) =
   Inr [Some \<lparr>validate = on, format = False, rulesCustomizations = [],
              workingDirectory = Some (IsModeItem \<lparr>mode = ''auto''\<rparr>),
              workspaceFolder = None\<rparr>]"
  by (simp add: readConfiguration_def readConfiguration_item_def document_settings_def
      workspaceFolder_of_def truthy_string_def getRuleCustomizations_def
      parseRulesCustomizations_def check_def migrate_def
      workingDirectory_loop_def wd_step_def itemValue_of_def last_char_differs_def startsWith_def
      example_editor_def example_config_def example_client_def example_paths_def posix_host_def
      parse_uri_def)

text \<open>Of three rules with the same match the first gives the result (its \<open>noCWD\<close>).\<close>

lemma equal_length_first_wins:
  "workingDirectory_loop example_paths (Some ''/a/b/c.js'') None
     [WDirectoryItem ''/a/'' (Some True), WString ''/a/'', WString ''/a'']
     = Some (IsDirectoryItem ''/a/'' True)"
  by (simp add: workingDirectory_loop_def wd_step_def entry_match_def itemValue_of_def
      example_paths_def posix_host_def last_char_differs_def startsWith_def)

lemma examples_independent_of_join_and_regexp:
  "workingDirectory_loop (posix_host j re) (Some ''/a/b/c.js'') None
     [WString ''/a/b/'', WModeItem \<lparr>mode = ''auto''\<rparr>, WString ''/a/'']
     = Some (IsDirectoryItem ''/a/'' False) \<and>
   workingDirectory_loop (posix_host j re) (Some ''/a/x.js'') None
     [WDirectoryItem ''/a/'' None, WModeItem \<lparr>mode = ''auto''\<rparr>]
     = Some (IsModeItem \<lparr>mode = ''auto''\<rparr>)"
  by (simp add: workingDirectory_loop_def wd_step_def entry_match_def itemValue_of_def
      posix_host_def last_char_differs_def startsWith_def)

text \<open>A mode rule declared last is the result, whatever matched before it.\<close>

lemma mode_declared_last:
  "workingDirectory_loop P fp root (es @ [WModeItem m]) = Some (IsModeItem m)"
  by (simp add: workingDirectory_loop_def wd_step_mode)

text \<open>A mode rule is overridden by a match declared after it.\<close>

lemma mode_overridden_by_later_match:
  assumes "list_all (\<lambda>e. \<not> is_mode e) post"
    and "List.map_filter (entry_match P fp root) post \<noteq> []"
  shows "\<exists>d c. workingDirectory_loop P fp root (pre @ WModeItem m # post) = Some (IsDirectoryItem d c)"
proof -
  have "foldl (wd_step P fp root) None (pre @ WModeItem m # post) =
          foldl (wd_step P fp root) (Some (IsModeItem m)) post"
    by (simp add: wd_step_mode)
  then show ?thesis
    using loop_no_mode [OF assms(1), of "Some (IsModeItem m)" P fp root] assms(2)
    by (auto simp: workingDirectory_loop_def)
qed

end
